theory Spec2Isabelle
  imports Complex_Main
begin

section \<open>Errors raised by dem2ticks.py\<close>

text \<open>
  The two decoding functions raise \<^verbatim>\<open>ValueError\<close> with a message built from the tick and
  the steamid when the per-tick query comes back empty; the first constructor below
  carries these two numbers in the order of the message. \<^verbatim>\<open>IndexError\<close> is what
  \<^verbatim>\<open>player_data.index[-1]\<close> raises on an empty index. \<^verbatim>\<open>TypeError\<close> is what calling a
  class without constructor raises when it is given arguments. \<^verbatim>\<open>int\<close> of a float raises
  \<^verbatim>\<open>ValueError\<close> (with another message) on a NaN and \<^verbatim>\<open>OverflowError\<close> on an infinity.
\<close>

datatype error = ValueError int int | IndexError | TypeError | ValueError_nan | OverflowError

section \<open>The telemetry source\<close>

text \<open>
  One row of \<^verbatim>\<open>parse_ticks(["is_alive", "player_steamid", "game_time"])\<close>: the index label
  that \<^verbatim>\<open>iterrows\<close> yields, the player and the liveliness flag. The game time column is
  requested by the source but never read.
\<close>

record alive_row =
  row_index :: int
  row_steamid :: int
  is_alive :: bool

text \<open>
  One row of a per-tick, per-player query, with every column either decoder reads.
  The float columns have type \<open>'f\<close>.
\<close>

record 'f tick_row =
  FORWARD :: bool
  LEFT :: bool
  RIGHT :: bool
  BACK :: bool
  team_num :: int
  WALK :: bool
  USE :: bool
  INSPECT :: bool
  usercmd_mouse_dx :: 'f
  usercmd_mouse_dy :: 'f
  FIRE :: bool
  RIGHTCLICK :: bool
  RELOAD :: bool
  active_weapon :: int
  old_jump_pressed :: bool
  in_crouch :: bool
  ducked :: bool
  ducking :: bool
  in_duck_jump :: bool
  health :: int
  total_rounds_played :: int
  armor_value :: int
  balance :: int
  player_name :: string
  player_steamid :: int
  round_start_time :: 'f
  game_time :: 'f

text \<open>
  The parser object, reduced to the three queries the program makes: the bulk liveliness
  table, the index of the \<^verbatim>\<open>round_end\<close> event table, and the query
  \<^verbatim>\<open>parse_ticks(fields, players=[steamid], ticks=[tick])\<close>. The source is read-only, so a
  query is a function of its arguments.
\<close>

record 'f demo_parser =
  ticks_df :: "alive_row list"
  round_end_index :: "int list"
  parse_ticks :: "string list \<Rightarrow> int \<Rightarrow> int \<Rightarrow> 'f tick_row list"

text \<open>
  Arithmetic on the float columns: the subtraction of two floats (with whatever rounding
  the float format has) and what a float stands for, a real number, an infinity or a
  NaN.
\<close>

datatype float_value = Finite real | Infinite | NaN

record 'f float_ops =
  float_sub :: "'f \<Rightarrow> 'f \<Rightarrow> 'f"
  float_val :: "'f \<Rightarrow> float_value"

section \<open>DemoPOVs.get_player_alive_ranges\<close>

text \<open>
  The loop variables \<^verbatim>\<open>alive_ranges\<close>, \<^verbatim>\<open>start_tick\<close> and \<^verbatim>\<open>last_round_end_tick\<close>, in
  this order.
\<close>

type_synonym range_state = "(int \<times> int) list \<times> int option \<times> int"

definition init_state :: range_state where
  "init_state = ([], None, 0)"

text \<open>\<^verbatim>\<open>round_end_df[round_end_df.index > last_round_end_tick].index\<close>\<close>

definition round_end_ticks :: "int list \<Rightarrow> int \<Rightarrow> int list" where
  "round_end_ticks idx last_round_end_tick = filter (\<lambda>m. m > last_round_end_tick) idx"

text \<open>The first \<^verbatim>\<open>if\<close> of the loop body: has the round ended?\<close>

fun round_check :: "int list \<Rightarrow> int \<Rightarrow> range_state \<Rightarrow> range_state" where
  "round_check idx tick (alive_ranges, start_tick, last_round_end_tick) =
     (let ret = round_end_ticks idx last_round_end_tick in
      if length ret > 0 \<and> tick > hd ret then
        (if start_tick \<noteq> None
         then (alive_ranges @ [(the start_tick, hd ret)], None, hd ret)
         else (alive_ranges, start_tick, hd ret))
      else (alive_ranges, start_tick, last_round_end_tick))"

text \<open>The second \<^verbatim>\<open>if\<close>/\<^verbatim>\<open>elif\<close> of the loop body.\<close>

fun alive_check :: "int \<Rightarrow> bool \<Rightarrow> range_state \<Rightarrow> range_state" where
  "alive_check tick alive (alive_ranges, start_tick, last_round_end_tick) =
     (if alive \<and> start_tick = None then (alive_ranges, Some tick, last_round_end_tick)
      else if \<not> alive \<and> start_tick \<noteq> None
      then (alive_ranges @ [(the start_tick, tick - 1)], None, last_round_end_tick)
      else (alive_ranges, start_tick, last_round_end_tick))"

definition loop_body :: "int list \<Rightarrow> alive_row \<Rightarrow> range_state \<Rightarrow> range_state" where
  "loop_body idx row st =
     alive_check (row_index row) (is_alive row) (round_check idx (row_index row) st)"

text \<open>\<^verbatim>\<open>for tick, row in player_data.iterrows()\<close>\<close>

fun iterrows :: "int list \<Rightarrow> alive_row list \<Rightarrow> range_state \<Rightarrow> range_state" where
  "iterrows idx [] st = st"
| "iterrows idx (row # rows) st = iterrows idx rows (loop_body idx row st)"

text \<open>\<^verbatim>\<open>ticks_df[ticks_df['player_steamid'] == target_steamid]\<close>\<close>

definition player_data :: "'f demo_parser \<Rightarrow> int \<Rightarrow> alive_row list" where
  "player_data parser target_steamid =
     filter (\<lambda>row. row_steamid row = target_steamid) (ticks_df parser)"

text \<open>The state of the three variables when the loop is left.\<close>

definition after_loop :: "'f demo_parser \<Rightarrow> int \<Rightarrow> range_state" where
  "after_loop parser target_steamid =
     iterrows (round_end_index parser) (player_data parser target_steamid) init_state"

text \<open>
  The statement after the loop, which closes a range that is still open. Both
  \<^verbatim>\<open>index[-1]\<close> reads are written with their failure on an empty index; the one on
  \<^verbatim>\<open>round_end_df\<close> is guarded by the source.
\<close>

definition last_round_end :: "int list \<Rightarrow> alive_row list \<Rightarrow> error + int" where
  "last_round_end idx rows =
     (if idx \<noteq> [] then Inr (last idx)
      else if rows = [] then Inl IndexError
      else Inr (row_index (last rows)))"

definition close_last :: "int list \<Rightarrow> alive_row list \<Rightarrow> range_state \<Rightarrow> error + (int \<times> int) list" where
  "close_last idx rows st =
     (case st of (alive_ranges, start_tick, last_round_end_tick) \<Rightarrow>
        if start_tick \<noteq> None then
          (case last_round_end idx rows of
             Inl e \<Rightarrow> Inl e
           | Inr t \<Rightarrow> Inr (alive_ranges @ [(the start_tick, t)]))
        else Inr alive_ranges)"

text \<open>The list \<^verbatim>\<open>alive_ranges\<close> as it stands before the filter of the last line.\<close>

definition collected_ranges :: "'f demo_parser \<Rightarrow> int \<Rightarrow> error + (int \<times> int) list" where
  "collected_ranges parser target_steamid =
     close_last (round_end_index parser) (player_data parser target_steamid)
       (after_loop parser target_steamid)"

definition MAX_LEN :: int where
  "MAX_LEN = 128 * (55 + 60 + 15 + 15 + 45)"

definition get_player_alive_ranges :: "'f demo_parser \<Rightarrow> int \<Rightarrow> error + (int \<times> int) list" where
  "get_player_alive_ranges parser target_steamid =
     (case collected_ranges parser target_steamid of
        Inl e \<Rightarrow> Inl e
      | Inr alive_ranges \<Rightarrow> Inr (filter (\<lambda>(start, end). end - start < MAX_LEN) alive_ranges))"

section \<open>Python built-ins used by the decoders\<close>

text \<open>\<^verbatim>\<open>a or b\<close> evaluates to \<^verbatim>\<open>a\<close> when \<^verbatim>\<open>a\<close> is true and to \<^verbatim>\<open>b\<close> otherwise.\<close>

definition py_or :: "bool \<Rightarrow> bool \<Rightarrow> bool" where
  "py_or a b = (if a then a else b)"

text \<open>\<^verbatim>\<open>int\<close> of a boolean.\<close>

definition int_of_bool :: "bool \<Rightarrow> int" where
  "int_of_bool b = (if b then 1 else 0)"

text \<open>
  \<^verbatim>\<open>int\<close> of a float drops the fractional part, towards zero, and raises on a NaN and on
  an infinity.
\<close>

definition int_of_float :: "'f float_ops \<Rightarrow> 'f \<Rightarrow> error + int" where
  "int_of_float fl x =
     (case float_val fl x of
        Finite d \<Rightarrow> Inr (if d < 0 then \<lceil>d\<rceil> else \<lfloor>d\<rfloor>)
      | Infinite \<Rightarrow> Inl OverflowError
      | NaN \<Rightarrow> Inl ValueError_nan)"

text \<open>\<^verbatim>\<open>range(a, b)\<close>\<close>

definition py_range :: "int \<Rightarrow> int \<Rightarrow> int list" where
  "py_range a b = [a..b - 1]"

section \<open>PlayerActionFrame\<close>

text \<open>
  The class has one static method and neither \<^verbatim>\<open>__init__\<close> nor \<^verbatim>\<open>__new__\<close>, nor a base
  class: an instance has no attribute of its own.
\<close>

datatype PlayerActionFrame = PlayerActionFrame_instance

text \<open>The keyword arguments of the call \<^verbatim>\<open>PlayerActionFrame(wasd=wasd, ..., tick=tick)\<close>.\<close>

record 'f action_keywords =
  act_wasd :: "int list"
  act_team :: int
  act_walk :: int
  act_use :: int
  act_inspect :: int
  act_dx :: 'f
  act_dy :: 'f
  act_attack :: int
  act_l_attack :: int
  act_reload :: int
  act_select :: int
  act_jump :: int
  act_crouch :: int
  act_tick :: int

text \<open>
  Calling the class with arguments: the constructor inherited from \<^verbatim>\<open>object\<close> takes
  none and raises \<^verbatim>\<open>TypeError\<close>.
\<close>

definition PlayerActionFrame_call :: "'f action_keywords \<Rightarrow> error + PlayerActionFrame" where
  "PlayerActionFrame_call kwargs = Inl TypeError"

definition action_fields :: "string list" where
  "action_fields =
     [''player_steamid'', ''FORWARD'', ''LEFT'', ''RIGHT'', ''BACK'',
      ''team_num'', ''WALK'', ''USE'', ''INSPECT'',
      ''usercmd_mouse_dx'', ''usercmd_mouse_dy'',
      ''FIRE'', ''RIGHTCLICK'', ''RELOAD'', ''active_weapon'',
      ''old_jump_pressed'', ''in_crouch'', ''ducked'', ''ducking'', ''in_duck_jump'']"

text \<open>
  What \<^verbatim>\<open>get_player_action\<close> computes from the first row before the call: the lists and
  flags of lines 91 to 100 and the arguments of lines 103 to 116.
\<close>

definition action_arguments :: "'f tick_row \<Rightarrow> int \<Rightarrow> 'f action_keywords" where
  "action_arguments player_action tick =
     (let wasd = [int_of_bool (FORWARD player_action),
                  int_of_bool (LEFT player_action),
                  int_of_bool (BACK player_action),
                  int_of_bool (RIGHT player_action)];
          jump = int_of_bool
                   (py_or (old_jump_pressed player_action) (in_duck_jump player_action));
          crouch = int_of_bool
                     (py_or (py_or (in_crouch player_action) (ducked player_action))
                        (ducking player_action))
      in \<lparr>act_wasd = wasd,
          act_team = team_num player_action,
          act_walk = int_of_bool (WALK player_action),
          act_use = int_of_bool (USE player_action),
          act_inspect = int_of_bool (INSPECT player_action),
          act_dx = usercmd_mouse_dx player_action,
          act_dy = usercmd_mouse_dy player_action,
          act_attack = int_of_bool (FIRE player_action),
          act_l_attack = int_of_bool (RIGHTCLICK player_action),
          act_reload = int_of_bool (RELOAD player_action),
          act_select = active_weapon player_action,
          act_jump = jump,
          act_crouch = crouch,
          act_tick = tick\<rparr>)"

definition get_player_action ::
  "'f demo_parser \<Rightarrow> int \<Rightarrow> int \<Rightarrow> error + PlayerActionFrame" where
  "get_player_action parser steamid tick =
     (case parse_ticks parser action_fields steamid tick of
        [] \<Rightarrow> Inl (ValueError tick steamid)
      | player_action # _ \<Rightarrow> PlayerActionFrame_call (action_arguments player_action tick))"

section \<open>PlayerInfoFrame\<close>

record PlayerInfoFrame =
  info_tick :: int
  info_pic_path :: "string option"
  info_hp :: int
  info_team :: int
  info_weapon :: int
  info_round :: int
  info_time :: int
  info_armor :: int
  info_money :: int
  info_player_name :: string
  info_steamid :: int

definition info_fields :: "string list" where
  "info_fields =
     [''health'', ''team_num'', ''active_weapon'', ''total_rounds_played'',
      ''armor_value'', ''balance'', ''player_name'', ''player_steamid'',
      ''round_start_time'', ''game_time'']"

text \<open>
  The arguments of the constructor are evaluated in the order written, so \<^verbatim>\<open>int(round_time)\<close>
  can raise before the object is made.
\<close>

definition get_player_info ::
  "'f float_ops \<Rightarrow> 'f demo_parser \<Rightarrow> int \<Rightarrow> int \<Rightarrow> error + PlayerInfoFrame" where
  "get_player_info fl parser steamid tick =
     (case parse_ticks parser info_fields steamid tick of
        [] \<Rightarrow> Inl (ValueError tick steamid)
      | player_info # _ \<Rightarrow>
          (let round_time = float_sub fl (game_time player_info) (round_start_time player_info)
           in case int_of_float fl round_time of
                Inl e \<Rightarrow> Inl e
              | Inr time \<Rightarrow>
                  Inr \<lparr>info_tick = tick,
                       info_pic_path = None,
                       info_hp = health player_info,
                       info_team = team_num player_info,
                       info_weapon = active_weapon player_info,
                       info_round = total_rounds_played player_info,
                       info_time = time,
                       info_armor = armor_value player_info,
                       info_money = balance player_info,
                       info_player_name = player_name player_info,
                       info_steamid = player_steamid player_info\<rparr>))"

section \<open>PlayerFrame, PlayerRoundFrames, PlayerPOVs\<close>

record PlayerFrame =
  frame_tick :: int
  player_info :: PlayerInfoFrame
  player_action :: PlayerActionFrame

text \<open>The constructor decodes the status frame first, then the action frame.\<close>

definition PlayerFrame_init ::
  "'f float_ops \<Rightarrow> 'f demo_parser \<Rightarrow> int \<Rightarrow> int \<Rightarrow> error + PlayerFrame" where
  "PlayerFrame_init fl parser steamid tick =
     (case get_player_info fl parser steamid tick of
        Inl e \<Rightarrow> Inl e
      | Inr info \<Rightarrow>
          (case get_player_action parser steamid tick of
             Inl e \<Rightarrow> Inl e
           | Inr action \<Rightarrow>
               Inr \<lparr>frame_tick = tick, player_info = info, player_action = action\<rparr>))"

record PlayerRoundFrames =
  start_tick :: int
  end_tick :: int
  steamid :: int
  player_frames :: "PlayerFrame list"

text \<open>
  The loop of \<^verbatim>\<open>_build_player_frames\<close> over the ticks still to visit, with the list
  \<^verbatim>\<open>player_frames\<close> built so far. An exception leaves the loop and the constructor.
\<close>

fun build_player_frames ::
  "'f float_ops \<Rightarrow> 'f demo_parser \<Rightarrow> int \<Rightarrow> int list \<Rightarrow> PlayerFrame list
     \<Rightarrow> error + PlayerFrame list" where
  "build_player_frames fl parser sid [] frames = Inr frames"
| "build_player_frames fl parser sid (tick # ticks) frames =
     (case PlayerFrame_init fl parser sid tick of
        Inl e \<Rightarrow> Inl e
      | Inr frame \<Rightarrow> build_player_frames fl parser sid ticks (frames @ [frame]))"

definition PlayerRoundFrames_init ::
  "'f float_ops \<Rightarrow> 'f demo_parser \<Rightarrow> int \<Rightarrow> int \<Rightarrow> int \<Rightarrow> error + PlayerRoundFrames" where
  "PlayerRoundFrames_init fl parser start end sid =
     (case build_player_frames fl parser sid (py_range start (end + 1)) [] of
        Inl e \<Rightarrow> Inl e
      | Inr frames \<Rightarrow>
          Inr \<lparr>start_tick = start, end_tick = end, steamid = sid, player_frames = frames\<rparr>)"

text \<open>
  A player's POV: the steamid and the list \<^verbatim>\<open>round_frames\<close>. The reference to the
  parser that the object also keeps is not part of the record.
\<close>

record PlayerPOVs =
  pov_steamid :: int
  round_frames :: "PlayerRoundFrames list"

text \<open>The loop of \<^verbatim>\<open>_parse_round_frames\<close> over the ranges still to visit.\<close>

fun append_round_frames ::
  "'f float_ops \<Rightarrow> 'f demo_parser \<Rightarrow> int \<Rightarrow> (int \<times> int) list \<Rightarrow> PlayerRoundFrames list
     \<Rightarrow> error + PlayerRoundFrames list" where
  "append_round_frames fl parser sid [] acc = Inr acc"
| "append_round_frames fl parser sid ((start, end) # ranges) acc =
     (case PlayerRoundFrames_init fl parser start end sid of
        Inl e \<Rightarrow> Inl e
      | Inr rf \<Rightarrow> append_round_frames fl parser sid ranges (acc @ [rf]))"

definition parse_round_frames ::
  "'f float_ops \<Rightarrow> 'f demo_parser \<Rightarrow> int \<Rightarrow> error + PlayerRoundFrames list" where
  "parse_round_frames fl parser sid =
     (case get_player_alive_ranges parser sid of
        Inl e \<Rightarrow> Inl e
      | Inr ranges \<Rightarrow> append_round_frames fl parser sid ranges [])"

definition PlayerPOVs_init ::
  "'f float_ops \<Rightarrow> 'f demo_parser \<Rightarrow> int \<Rightarrow> error + PlayerPOVs" where
  "PlayerPOVs_init fl parser sid =
     (case parse_round_frames fl parser sid of
        Inl e \<Rightarrow> Inl e
      | Inr rfs \<Rightarrow> Inr \<lparr>pov_steamid = sid, round_frames = rfs\<rparr>)"

text \<open>A tick at which one of the two per-tick queries returns no row for the player.\<close>

definition no_row :: "'f demo_parser \<Rightarrow> int \<Rightarrow> int \<Rightarrow> bool" where
  "no_row parser sid t \<longleftrightarrow>
     parse_ticks parser info_fields sid t = [] \<or> parse_ticks parser action_fields sid t = []"

section \<open>Properties of range lists\<close>

text \<open>
  One range lies before another: it starts earlier and it ends before the other starts.
  A list sorted with respect to this relation is ascending by start tick and pairwise
  non-overlapping.
\<close>

definition before :: "int \<times> int \<Rightarrow> int \<times> int \<Rightarrow> bool" where
  "before r r' \<longleftrightarrow> fst r < fst r' \<and> snd r < fst r'"

text \<open>A round-end marker lies strictly inside a range.\<close>

definition straddles :: "int list \<Rightarrow> int \<times> int \<Rightarrow> bool" where
  "straddles idx r \<longleftrightarrow> (\<exists>m\<in>set idx. fst r < m \<and> m < snd r)"

text \<open>
  The loop invariant after the row with index \<open>B\<close>: the closed ranges are ordered, end
  at or before \<open>B\<close> and contain no marker; the boundary is not negative; an open start
  lies at or after the boundary and after every closed range, and either it was opened at
  \<open>B\<close> or no marker after the boundary lies before \<open>B\<close>.
\<close>

fun range_inv :: "int list \<Rightarrow> int \<Rightarrow> range_state \<Rightarrow> bool" where
  "range_inv idx B (rs, st, l) \<longleftrightarrow>
     sorted_wrt before rs \<and>
     (\<forall>r\<in>set rs. fst r \<le> B \<and> snd r \<le> B \<and> \<not> straddles idx r) \<and>
     0 \<le> l \<and> l \<le> B + 1 \<and>
     (case st of None \<Rightarrow> True
      | Some s \<Rightarrow> s \<le> B \<and> l \<le> s \<and> (\<forall>r\<in>set rs. fst r < s \<and> snd r < s) \<and>
                  (s = B \<or> (\<forall>m\<in>set idx. l < m \<longrightarrow> B \<le> m)))"

text \<open>The same between the two statements of the loop body, at the row with index \<open>t\<close>.\<close>

fun mid_inv :: "int list \<Rightarrow> int \<Rightarrow> range_state \<Rightarrow> bool" where
  "mid_inv idx t (rs, st, l) \<longleftrightarrow>
     sorted_wrt before rs \<and>
     (\<forall>r\<in>set rs. fst r < t \<and> snd r < t \<and> \<not> straddles idx r) \<and>
     0 \<le> l \<and> l \<le> t \<and>
     (case st of None \<Rightarrow> True
      | Some s \<Rightarrow> s < t \<and> l \<le> s \<and> (\<forall>r\<in>set rs. fst r < s \<and> snd r < s) \<and>
                  (\<forall>m\<in>set idx. l < m \<longrightarrow> t \<le> m))"

section \<open>Example inputs\<close>

text \<open>Liveliness rows, a float type of finite values with exact arithmetic, and a small demo.\<close>

definition alive_at :: "int \<Rightarrow> int \<Rightarrow> alive_row" where
  "alive_at sid t = \<lparr>row_index = t, row_steamid = sid, is_alive = True\<rparr>"

definition dead_at :: "int \<Rightarrow> int \<Rightarrow> alive_row" where
  "dead_at sid t = \<lparr>row_index = t, row_steamid = sid, is_alive = False\<rparr>"

definition real_ops :: "real float_ops" where
  "real_ops = \<lparr>float_sub = (\<lambda>x y. x - y), float_val = Finite\<rparr>"

definition example_row :: "real tick_row" where
  "example_row =
     \<lparr>FORWARD = True, LEFT = False, RIGHT = False, BACK = False, team_num = 2,
      WALK = False, USE = False, INSPECT = False,
      usercmd_mouse_dx = 1.5, usercmd_mouse_dy = - 0.25,
      FIRE = True, RIGHTCLICK = False, RELOAD = False, active_weapon = 7,
      old_jump_pressed = False, in_crouch = False, ducked = True, ducking = False,
      in_duck_jump = True, health = 100, total_rounds_played = 3, armor_value = 50,
      balance = 800, player_name = ''p'', player_steamid = 7,
      round_start_time = 12.75, game_time = 10.5\<rparr>"

text \<open>
  A demo with the given liveliness table and round-end index, in which player 7 has a
  row at every tick from 0 to 1000 and nobody else has any.
\<close>

definition demo :: "alive_row list \<Rightarrow> int list \<Rightarrow> real demo_parser" where
  "demo rows idx =
     \<lparr>ticks_df = rows, round_end_index = idx,
      parse_ticks = (\<lambda>fields sid tick.
         if sid = 7 \<and> 0 \<le> tick \<and> tick \<le> 1000 then [example_row] else [])\<rparr>"

section \<open>Facts about the example inputs\<close>

lemma parse_ticks_demo:
  "parse_ticks (demo rows idx) cols sid tick =
     (if sid = 7 \<and> 0 \<le> tick \<and> tick \<le> 1000 then [example_row] else [])"
  by (simp add: demo_def)

lemma ticks_df_demo: "ticks_df (demo rows idx) = rows"
  by (simp add: demo_def)

lemma round_end_index_demo: "round_end_index (demo rows idx) = idx"
  by (simp add: demo_def)

lemmas eval_ranges =
  get_player_alive_ranges_def collected_ranges_def close_last_def after_loop_def
  player_data_def ticks_df_demo round_end_index_demo alive_at_def dead_at_def init_state_def
  loop_body_def round_end_ticks_def last_round_end_def MAX_LEN_def

section \<open>FrameDecoder: what the two decoders return\<close>

lemma get_player_action_result:
  "get_player_action parser sid t =
     Inl (if parse_ticks parser action_fields sid t = [] then ValueError t sid else TypeError)"
  by (simp add: get_player_action_def PlayerActionFrame_call_def split: list.splits)

lemma get_player_info_not_found:
  "get_player_info fl parser sid t = Inl (ValueError t sid) \<longleftrightarrow>
     parse_ticks parser info_fields sid t = []"
proof (cases "parse_ticks parser info_fields sid t")
  case Nil
  then show ?thesis by (simp add: get_player_info_def)
next
  case (Cons row rest)
  then show ?thesis
    by (simp add: get_player_info_def int_of_float_def Let_def
          split: float_value.splits)
qed

lemma PlayerFrame_init_fails: "\<exists>e. PlayerFrame_init fl parser sid t = Inl e"
  by (simp add: PlayerFrame_init_def get_player_action_result split: sum.splits)

lemma PlayerFrame_init_no_info:
  "parse_ticks parser info_fields sid t = [] \<Longrightarrow>
   PlayerFrame_init fl parser sid t = Inl (ValueError t sid)"
  by (simp add: PlayerFrame_init_def get_player_info_def)


section \<open>RoundFrameAssembler: the frames of one range\<close>

lemma round_frames_first_tick:
  assumes "start \<le> end" and "PlayerFrame_init fl parser sid start = Inl e"
  shows "PlayerRoundFrames_init fl parser start end sid = Inl e"
proof -
  have "[start..end] = start # [start + 1..end]"
    using assms(1) by (rule upto_rec1)
  with assms(2) show ?thesis
    by (simp add: PlayerRoundFrames_init_def py_range_def)
qed

lemma round_frames_fails:
  "start \<le> end \<Longrightarrow> \<exists>e. PlayerRoundFrames_init fl parser start end sid = Inl e"
  using PlayerFrame_init_fails [of fl parser sid start] round_frames_first_tick by blast




section \<open>FrameDecoder: missing rows\<close>

text \<open>
  C7. Each decoder fails with the ValueError that names the tick and the steamid exactly
  when its per-tick query returns no row. When one of the two queries returns no row at a
  tick of the range, the constructor of PlayerRoundFrames fails: it returns an error and
  no object. The error is the ValueError for the first tick of the range when the status
  query has no row there.
\<close>

theorem decoder_not_found:
  "(get_player_action parser sid t = Inl (ValueError t sid)
      \<longleftrightarrow> parse_ticks parser action_fields sid t = []) \<and>
   (get_player_info fl parser sid t = Inl (ValueError t sid)
      \<longleftrightarrow> parse_ticks parser info_fields sid t = []) \<and>
   (start \<le> t \<and> t \<le> end \<and> no_row parser sid t
      \<longrightarrow> (\<exists>e. PlayerRoundFrames_init fl parser start end sid = Inl e)) \<and>
   (start \<le> end \<and> parse_ticks parser info_fields sid start = []
      \<longrightarrow> PlayerRoundFrames_init fl parser start end sid = Inl (ValueError start sid))"
proof -
  have a: "get_player_action parser sid t = Inl (ValueError t sid)
      \<longleftrightarrow> parse_ticks parser action_fields sid t = []"
    by (simp add: get_player_action_result)
  have b: "get_player_info fl parser sid t = Inl (ValueError t sid)
      \<longleftrightarrow> parse_ticks parser info_fields sid t = []"
    by (rule get_player_info_not_found)
  have c: "start \<le> t \<and> t \<le> end \<and> no_row parser sid t
      \<longrightarrow> (\<exists>e. PlayerRoundFrames_init fl parser start end sid = Inl e)"
    using round_frames_fails [of start "end" fl parser sid] by simp
  have d: "start \<le> end \<and> parse_ticks parser info_fields sid start = []
      \<longrightarrow> PlayerRoundFrames_init fl parser start end sid = Inl (ValueError start sid)"
    using round_frames_first_tick PlayerFrame_init_no_info by blast
  show ?thesis by (rule conjI [OF a conjI [OF b conjI [OF c d]]])
qed

theorem decoder_not_found_witness:
  "get_player_action (demo [] []) 7 1001 = Inl (ValueError 1001 7) \<and>
   get_player_info real_ops (demo [] []) 7 1001 = Inl (ValueError 1001 7) \<and>
   (\<exists>e. PlayerRoundFrames_init real_ops (demo [] []) 999 1002 7 = Inl e) \<and>
   PlayerRoundFrames_init real_ops (demo [] []) 1001 1002 7 = Inl (ValueError 1001 7)"
proof -
  note D = decoder_not_found [of "demo [] []" 7 1001 real_ops 999 1002]
  have e: "parse_ticks (demo [] []) action_fields 7 1001 = []"
          "parse_ticks (demo [] []) info_fields 7 1001 = []"
    by (simp_all add: parse_ticks_demo)
  have nr: "no_row (demo [] []) 7 1001" by (simp add: no_row_def e)
  have a: "get_player_action (demo [] []) 7 1001 = Inl (ValueError 1001 7)"
    using D [THEN conjunct1] e by simp
  have b: "get_player_info real_ops (demo [] []) 7 1001 = Inl (ValueError 1001 7)"
    using D [THEN conjunct2, THEN conjunct1] e by simp
  have c: "\<exists>e. PlayerRoundFrames_init real_ops (demo [] []) 999 1002 7 = Inl e"
    using D [THEN conjunct2, THEN conjunct2, THEN conjunct1] nr by simp
  have d: "PlayerRoundFrames_init real_ops (demo [] []) 1001 1002 7 = Inl (ValueError 1001 7)"
    using decoder_not_found [of "demo [] []" 7 1001 real_ops 1001 1002,
        THEN conjunct2, THEN conjunct2, THEN conjunct2] e by simp
  show ?thesis by (rule conjI [OF a conjI [OF b conjI [OF c d]]])
qed

section \<open>FrameDecoder: derived fields\<close>





section \<open>AliveRangeExtractor: the loop invariant\<close>

lemma round_check_cases:
  "round_check idx t (rs, st, l) =
     (case round_end_ticks idx l of
        [] \<Rightarrow> (rs, st, l)
      | m # _ \<Rightarrow>
          if t > m then (case st of None \<Rightarrow> (rs, None, m) | Some s \<Rightarrow> (rs @ [(s, m)], None, m))
          else (rs, st, l))"
  by (cases "round_end_ticks idx l"; cases st; simp)

lemma alive_check_cases:
  "alive_check t a (rs, st, l) =
     (case st of
        None \<Rightarrow> if a then (rs, Some t, l) else (rs, None, l)
      | Some s \<Rightarrow> if a then (rs, Some s, l) else (rs @ [(s, t - 1)], None, l))"
  by (cases st; simp)

lemma round_end_ticks_Nil:
  "round_end_ticks idx l = [] \<Longrightarrow> m \<in> set idx \<Longrightarrow> m \<le> l"
  by (auto simp: round_end_ticks_def filter_empty_conv)

lemma round_end_ticks_Cons:
  assumes "sorted idx" and "round_end_ticks idx l = m # rest"
  shows "m \<in> set idx" and "l < m" and "\<And>x. x \<in> set idx \<Longrightarrow> l < x \<Longrightarrow> m \<le> x"
proof -
  have "m \<in> set (round_end_ticks idx l)" using assms(2) by simp
  then show "m \<in> set idx" and "l < m" by (auto simp: round_end_ticks_def)
  have srt: "sorted (m # rest)"
    using assms by (metis round_end_ticks_def sorted_wrt_filter)
  fix x assume "x \<in> set idx" "l < x"
  then have "x \<in> set (round_end_ticks idx l)" by (simp add: round_end_ticks_def)
  then have "x \<in> set (m # rest)" using assms(2) by simp
  with srt show "m \<le> x" by auto
qed

lemma round_check_inv:
  assumes "range_inv idx B st" and "B < t" and "sorted idx"
  shows "mid_inv idx t (round_check idx t st)"
proof -
  obtain rs s l where st: "st = (rs, s, l)" by (cases st) auto
  show ?thesis
  proof (cases "round_end_ticks idx l")
    case Nil
    then have "\<forall>m\<in>set idx. m \<le> l" using round_end_ticks_Nil by blast
    with assms Nil show ?thesis
      unfolding st round_check_cases by (cases s) (auto simp: not_less [symmetric])
  next
    case (Cons m rest)
    note hd = round_end_ticks_Cons [OF assms(3) Cons]
    show ?thesis
    proof (cases "t > m")
      case False
      then have "\<forall>x\<in>set idx. l < x \<longrightarrow> t \<le> x" using hd(3) by fastforce
      with assms Cons False show ?thesis
        unfolding st round_check_cases by (cases s) auto
    next
      case True
      show ?thesis
      proof (cases s)
        case None
        with assms Cons True hd(2) show ?thesis
          unfolding st round_check_cases by auto
      next
        case (Some a)
        have ns: "\<not> straddles idx (a, m)"
        proof
          assume "straddles idx (a, m)"
          then obtain x where x: "x \<in> set idx" "a < x" "x < m"
            by (auto simp: straddles_def)
          from assms(1) Some have "l \<le> a" unfolding st by simp
          with x have "l < x" by simp
          from hd(3) [OF x(1) this] x(3) show False by simp
        qed
        from assms(1) Some have "a \<le> B" unfolding st by simp
        with assms ns Cons True hd(2) Some show ?thesis
          unfolding st round_check_cases
          by (auto simp: sorted_wrt_append before_def)
      qed
    qed
  qed
qed

lemma alive_check_inv:
  assumes "mid_inv idx t st" and "0 \<le> t"
  shows "range_inv idx t (alive_check t a st)"
proof -
  obtain rs s l where st: "st = (rs, s, l)" by (cases st) auto
  show ?thesis
  proof (cases s)
    case None
    with assms show ?thesis unfolding st alive_check_cases by (cases a) auto
  next
    case (Some b)
    show ?thesis
    proof (cases a)
      case True
      with assms Some show ?thesis unfolding st alive_check_cases by auto
    next
      case False
      have ns: "\<not> straddles idx (b, t - 1)"
      proof
        assume "straddles idx (b, t - 1)"
        then obtain x where x: "x \<in> set idx" "b < x" "x < t - 1"
          by (auto simp: straddles_def)
        from assms(1) Some have "l \<le> b" and "\<forall>m\<in>set idx. l < m \<longrightarrow> t \<le> m"
          unfolding st by simp_all
        with x show False by fastforce
      qed
      with assms Some False show ?thesis unfolding st alive_check_cases
        by (auto simp: sorted_wrt_append before_def)
    qed
  qed
qed

lemma loop_body_inv:
  assumes "range_inv idx B st" and "B < row_index row" and "0 \<le> row_index row" and "sorted idx"
  shows "range_inv idx (row_index row) (loop_body idx row st)"
  unfolding loop_body_def
  by (rule alive_check_inv [OF round_check_inv [OF assms(1,2,4)] assms(3)])

lemma iterrows_inv:
  assumes "sorted idx"
  shows "range_inv idx B st \<Longrightarrow> sorted_wrt (<) (map row_index rows) \<Longrightarrow>
         \<forall>r\<in>set rows. B < row_index r \<and> 0 \<le> row_index r \<Longrightarrow>
         range_inv idx (if rows = [] then B else row_index (last rows)) (iterrows idx rows st)"
proof (induction rows arbitrary: B st)
  case Nil
  then show ?case by simp
next
  case (Cons row rows)
  have b1: "B < row_index row" and b2: "0 \<le> row_index row"
    using Cons.prems(3) by simp_all
  have step: "range_inv idx (row_index row) (loop_body idx row st)"
    by (rule loop_body_inv [OF Cons.prems(1) b1 b2 assms])
  have srt: "sorted_wrt (<) (map row_index rows)"
    using Cons.prems(2) by simp
  have bnd: "\<forall>r\<in>set rows. row_index row < row_index r \<and> 0 \<le> row_index r"
    using Cons.prems(2,3) by auto
  from Cons.IH [OF step srt bnd] show ?case by (cases "rows = []") simp_all
qed

lemma init_state_inv: "range_inv idx (- 1) init_state"
  by (simp add: init_state_def)

lemma after_loop_inv:
  assumes "sorted_wrt (<) (map row_index (player_data parser sid))"
    and "\<forall>row\<in>set (player_data parser sid). 0 \<le> row_index row"
    and "sorted (round_end_index parser)"
  shows "range_inv (round_end_index parser)
           (if player_data parser sid = [] then - 1 else row_index (last (player_data parser sid)))
           (after_loop parser sid)"
  unfolding after_loop_def
  using assms(2) by (intro iterrows_inv [OF assms(3) init_state_inv assms(1)]) auto

lemma after_loop_no_rows:
  "player_data parser sid = [] \<Longrightarrow> after_loop parser sid = init_state"
  by (simp add: after_loop_def)

lemma collected_ranges_cases:
  "collected_ranges parser sid =
     (case after_loop parser sid of
        (rs, None, l) \<Rightarrow> Inr rs
      | (rs, Some s, l) \<Rightarrow>
          Inr (rs @ [(s, if round_end_index parser \<noteq> [] then last (round_end_index parser)
                         else row_index (last (player_data parser sid)))]))"
proof (cases "player_data parser sid = []")
  case True
  then show ?thesis
    by (simp add: collected_ranges_def after_loop_no_rows init_state_def close_last_def)
next
  case False
  then show ?thesis
    by (auto simp: collected_ranges_def close_last_def last_round_end_def
             split: prod.splits option.splits)
qed

lemma get_player_alive_ranges_filter:
  "get_player_alive_ranges parser sid =
     (case collected_ranges parser sid of
        Inl e \<Rightarrow> Inl e
      | Inr rs \<Rightarrow> Inr (filter (\<lambda>r. snd r - fst r < 24320) rs))"
proof -
  have eq: "(\<lambda>(start :: int, end :: int). end - start < 24320) = (\<lambda>r. snd r - fst r < 24320)"
    by (simp add: fun_eq_iff)
  have m: "MAX_LEN = 24320" by (simp add: MAX_LEN_def)
  show ?thesis unfolding get_player_alive_ranges_def m eq by (rule refl)
qed

section \<open>AliveRangeExtractor: order and round boundaries\<close>

lemma collected_total: "\<exists>rs. collected_ranges parser sid = Inr rs"
  by (simp add: collected_ranges_cases split: prod.splits option.splits)

text \<open>
  C4, as amended. Let the rows of the player come in strictly ascending order of their
  index, with no negative index, and the round-end markers in ascending order. Then the
  function returns a list that is ascending by start tick and pairwise non-overlapping:
  every range starts after the start and after the end of every range before it. No
  marker lies strictly inside a range closed during the pass. When the rows of the
  player reach the last round, that is, every marker below the last lies before the last
  row of the player, no marker lies strictly inside any returned range.
\<close>

theorem alive_ranges_ordered_within_rounds:
  assumes "sorted_wrt (<) (map row_index (player_data parser sid))"
    and "\<forall>row\<in>set (player_data parser sid). 0 \<le> row_index row"
    and "sorted (round_end_index parser)"
  shows "\<exists>out. get_player_alive_ranges parser sid = Inr out \<and>
           sorted_wrt before out \<and>
           (\<forall>r\<in>set (fst (after_loop parser sid)). \<not> straddles (round_end_index parser) r) \<and>
           ((\<forall>m\<in>set (round_end_index parser).
                m < last (round_end_index parser) \<longrightarrow>
                m < row_index (last (player_data parser sid)))
             \<longrightarrow> (\<forall>r\<in>set out. \<not> straddles (round_end_index parser) r))"
proof -
  define idx where "idx = round_end_index parser"
  define rows where "rows = player_data parser sid"
  define T where "T = (if rows = [] then - 1 else row_index (last rows))"
  obtain rs st l where al: "after_loop parser sid = (rs, st, l)"
    by (cases "after_loop parser sid") auto
  have inv: "range_inv idx T (rs, st, l)"
    using after_loop_inv [OF assms] unfolding idx_def rows_def T_def al .
  have pass: "\<forall>r\<in>set rs. \<not> straddles idx r" and srt: "sorted_wrt before rs"
    using inv by simp_all
  show ?thesis
  proof (cases st)
    case None
    then have out: "get_player_alive_ranges parser sid =
        Inr (filter (\<lambda>r. snd r - fst r < 24320) rs)"
      by (simp add: get_player_alive_ranges_filter collected_ranges_cases al)
    have "sorted_wrt before (filter (\<lambda>r. snd r - fst r < 24320) rs)"
      using srt by (rule sorted_wrt_filter)
    with out pass show ?thesis unfolding al idx_def [symmetric] by simp
  next
    case (Some s)
    define e where "e = (if idx \<noteq> [] then last idx else row_index (last rows))"
    have col: "collected_ranges parser sid = Inr (rs @ [(s, e)])"
      by (simp add: collected_ranges_cases al Some e_def idx_def rows_def)
    then have out: "get_player_alive_ranges parser sid =
        Inr (filter (\<lambda>r. snd r - fst r < 24320) (rs @ [(s, e)]))"
      by (simp add: get_player_alive_ranges_filter)
    from inv Some have ps: "\<forall>r\<in>set rs. fst r < s \<and> snd r < s" and ls: "l \<le> s"
      and cur: "s = T \<or> (\<forall>m\<in>set idx. l < m \<longrightarrow> T \<le> m)"
      by simp_all
    have "sorted_wrt before (rs @ [(s, e)])"
      using srt ps by (auto simp: sorted_wrt_append before_def)
    then have s1: "sorted_wrt before (filter (\<lambda>r. snd r - fst r < 24320) (rs @ [(s, e)]))"
      by (rule sorted_wrt_filter)
    have s3: "\<not> straddles idx (s, e)"
      if h: "\<forall>m\<in>set idx. m < last idx \<longrightarrow> m < row_index (last rows)"
    proof
      assume "straddles idx (s, e)"
      then obtain m where m: "m \<in> set idx" "s < m" "m < e"
        by (auto simp: straddles_def)
      then have ne: "idx \<noteq> []" by auto
      then have e: "e = last idx" by (simp add: e_def)
      from inv Some have "s \<le> T" by simp
      moreover from inv have "0 \<le> l" by simp
      ultimately have "rows \<noteq> []" using ls by (auto simp: T_def split: if_splits)
      then have T: "T = row_index (last rows)" by (simp add: T_def)
      from h m e have "m < T" unfolding T by simp
      with cur m ls show False by fastforce
    qed
    have "(\<forall>m\<in>set idx. m < last idx \<longrightarrow> m < row_index (last rows))
             \<longrightarrow> (\<forall>r\<in>set (filter (\<lambda>r. snd r - fst r < 24320) (rs @ [(s, e)])).
                    \<not> straddles idx r)"
      using pass s3 by auto
    with out s1 pass show ?thesis
      unfolding al idx_def [symmetric] rows_def [symmetric] by simp
  qed
qed

theorem alive_ranges_ordered_within_rounds_witness:
  "get_player_alive_ranges
     (demo [alive_at 7 100, alive_at 7 200, dead_at 7 250, alive_at 7 301, alive_at 7 400]
        [300, 600]) 7 = Inr [(100, 249), (301, 600)] \<and>
   sorted_wrt before [(100, 249), (301, 600)] \<and>
   \<not> straddles [300, 600] (100, 249) \<and> \<not> straddles [300, 600] (301, 600)"
proof -
  define D where "D = demo [alive_at 7 100, alive_at 7 200, dead_at 7 250, alive_at 7 301,
    alive_at 7 400] [300, 600]"
  have pd: "player_data D 7 =
      [alive_at 7 100, alive_at 7 200, dead_at 7 250, alive_at 7 301, alive_at 7 400]"
    by (simp add: D_def player_data_def ticks_df_demo alive_at_def dead_at_def)
  have ri: "round_end_index D = [300, 600]"
    by (simp add: D_def round_end_index_demo)
  have h1: "sorted_wrt (<) (map row_index (player_data D 7))"
    unfolding pd by (simp add: alive_at_def dead_at_def)
  have h2: "\<forall>row\<in>set (player_data D 7). 0 \<le> row_index row"
    unfolding pd by (simp add: alive_at_def dead_at_def)
  have h3: "sorted (round_end_index D)"
    unfolding ri by simp
  have h4: "\<forall>m\<in>set (round_end_index D).
      m < last (round_end_index D) \<longrightarrow> m < row_index (last (player_data D 7))"
    unfolding pd ri by (simp add: alive_at_def)
  have out: "get_player_alive_ranges D 7 = Inr [(100, 249), (301, 600)]"
    unfolding D_def by (simp add: eval_ranges)
  from alive_ranges_ordered_within_rounds [OF h1 h2 h3] obtain out' where
    o: "get_player_alive_ranges D 7 = Inr out' \<and> sorted_wrt before out' \<and>
        (\<forall>r\<in>set (fst (after_loop D 7)). \<not> straddles (round_end_index D) r) \<and>
        ((\<forall>m\<in>set (round_end_index D).
            m < last (round_end_index D) \<longrightarrow> m < row_index (last (player_data D 7)))
          \<longrightarrow> (\<forall>r\<in>set out'. \<not> straddles (round_end_index D) r))" ..
  with out have eq: "out' = [(100, 249), (301, 600)]" by simp
  from o h4 have "sorted_wrt before out'" and "\<forall>r\<in>set out'. \<not> straddles (round_end_index D) r"
    by simp_all
  then have "sorted_wrt before [(100, 249), (301, 600)] \<and>
   \<not> straddles [300, 600] (100, 249) \<and> \<not> straddles [300, 600] (301, 600)"
    unfolding eq ri by simp
  with out show ?thesis unfolding D_def by simp
qed

text \<open>
  C4 as stated fails: a player seen alive at ticks 100 and 101 only, with markers at 300
  and 600, gets the range (100, 600), and the marker 300 lies strictly inside it.
\<close>

theorem trailing_range_straddles:
  "get_player_alive_ranges (demo [alive_at 7 100, alive_at 7 101] [300, 600]) 7 =
     Inr [(100, 600)] \<and>
   straddles (round_end_index (demo [alive_at 7 100, alive_at 7 101] [300, 600])) (100, 600)"
  by (simp add: eval_ranges straddles_def)

text \<open>
  C5, as amended. The function raises nothing and returns the collected ranges with
  \<open>end - start < 24320\<close>, in their order: every returned range has this property and
  every collected range with this property is returned. A range of length 24320 or more
  is discarded.
\<close>

theorem length_filter:
  "\<exists>rs out. collected_ranges parser sid = Inr rs \<and>
      get_player_alive_ranges parser sid = Inr out \<and>
      out = filter (\<lambda>(start, end). end - start < 24320) rs \<and>
      (\<forall>(start, end)\<in>set out. end - start < 24320) \<and>
      (\<forall>(start, end)\<in>set rs. end - start < 24320 \<longrightarrow> (start, end) \<in> set out)"
proof -
  obtain rs where rs: "collected_ranges parser sid = Inr rs"
    using collected_total by blast
  have m: "MAX_LEN = 24320" by (simp add: MAX_LEN_def)
  have "get_player_alive_ranges parser sid =
      Inr (filter (\<lambda>(start, end). end - start < 24320) rs)"
    unfolding get_player_alive_ranges_def m rs by simp
  then show ?thesis using rs by auto
qed

theorem length_filter_witness:
  "collected_ranges
     (demo [alive_at 7 0, dead_at 7 10, alive_at 7 20, alive_at 7 21] [24340]) 7 =
     Inr [(0, 9), (20, 24340)] \<and>
   get_player_alive_ranges
     (demo [alive_at 7 0, dead_at 7 10, alive_at 7 20, alive_at 7 21] [24340]) 7 =
     Inr [(0, 9)]"
proof -
  define D where "D = demo [alive_at 7 0, dead_at 7 10, alive_at 7 20, alive_at 7 21] [24340]"
  have col: "collected_ranges D 7 = Inr [(0, 9), (20, 24340)]"
    unfolding D_def by (simp add: eval_ranges)
  from length_filter [of D 7] obtain rs out where
    o: "collected_ranges D 7 = Inr rs \<and> get_player_alive_ranges D 7 = Inr out \<and>
      out = filter (\<lambda>(start, end). end - start < 24320) rs \<and>
      (\<forall>(start, end)\<in>set out. end - start < 24320) \<and>
      (\<forall>(start, end)\<in>set rs. end - start < 24320 \<longrightarrow> (start, end) \<in> set out)"
    by blast
  with col have "rs = [(0, 9), (20, 24340)]" by simp
  with o have "get_player_alive_ranges D 7 = Inr [(0, 9)]" by simp
  with col show ?thesis unfolding D_def by simp
qed

text \<open>
  C5 as stated fails: a collected range whose length is the bound itself does not exceed
  the bound, and it is discarded.
\<close>

theorem length_equal_to_bound_dropped:
  "collected_ranges (demo [alive_at 7 0, alive_at 7 1] [24320]) 7 = Inr [(0, 24320)] \<and>
   \<not> (24320 - 0 > MAX_LEN) \<and>
   get_player_alive_ranges (demo [alive_at 7 0, alive_at 7 1] [24320]) 7 = Inr []"
  by (simp add: eval_ranges)

section \<open>AliveRangeExtractor: players never alive, boundaries, the last range\<close>

lemma loop_body_dead:
  "\<not> is_alive row \<Longrightarrow> \<exists>l'. loop_body idx row (rs, None, l) = (rs, None, l')"
  by (simp add: loop_body_def round_check_cases alive_check_cases
        del: round_check.simps alive_check.simps split: list.splits)

lemma iterrows_dead:
  "\<forall>row\<in>set rows. \<not> is_alive row \<Longrightarrow> \<exists>l'. iterrows idx rows (rs, None, l) = (rs, None, l')"
proof (induction rows arbitrary: l)
  case Nil
  then show ?case by simp
next
  case (Cons row rows)
  then obtain l1 where "loop_body idx row (rs, None, l) = (rs, None, l1)"
    using loop_body_dead [of row idx rs l] by auto
  with Cons show ?case by simp
qed

text \<open>
  C8. When no row of the player is alive, \<^verbatim>\<open>get_player_alive_ranges\<close> returns the empty list
  and the constructor of PlayerPOVs returns an object with no round frames; neither
  raises.
\<close>

theorem never_alive_empty:
  assumes "\<forall>row\<in>set (ticks_df parser). row_steamid row = sid \<longrightarrow> \<not> is_alive row"
  shows "get_player_alive_ranges parser sid = Inr [] \<and>
         PlayerPOVs_init fl parser sid = Inr \<lparr>pov_steamid = sid, round_frames = []\<rparr>"
proof -
  have "\<forall>row\<in>set (player_data parser sid). \<not> is_alive row"
    using assms by (simp add: player_data_def)
  from iterrows_dead [OF this, of "round_end_index parser" "[]" 0]
  obtain l' where "after_loop parser sid = ([], None, l')"
    by (auto simp: after_loop_def init_state_def)
  then have "collected_ranges parser sid = Inr []"
    by (simp add: collected_ranges_cases)
  then have r: "get_player_alive_ranges parser sid = Inr []"
    by (simp add: get_player_alive_ranges_filter)
  then have "PlayerPOVs_init fl parser sid = Inr \<lparr>pov_steamid = sid, round_frames = []\<rparr>"
    by (simp add: PlayerPOVs_init_def parse_round_frames_def)
  with r show ?thesis by simp
qed

theorem never_alive_empty_witness:
  "get_player_alive_ranges (demo [dead_at 7 1, alive_at 8 1, dead_at 7 2, alive_at 8 2] [300]) 7
     = Inr [] \<and>
   PlayerPOVs_init real_ops (demo [dead_at 7 1, alive_at 8 1, dead_at 7 2, alive_at 8 2] [300]) 7
     = Inr \<lparr>pov_steamid = 7, round_frames = []\<rparr>"
proof -
  have "\<forall>row\<in>set (ticks_df (demo [dead_at 7 1, alive_at 8 1, dead_at 7 2, alive_at 8 2] [300])).
          row_steamid row = 7 \<longrightarrow> \<not> is_alive row"
    by (simp add: ticks_df_demo dead_at_def alive_at_def)
  from never_alive_empty [OF this, of real_ops] show ?thesis .
qed

text \<open>
  C3. When a range is open and the tick of the current row is past the first marker after
  the last boundary, the loop body closes the range at that marker itself, makes the
  marker the new boundary, and opens a new range at the current tick when the row is
  alive. For a player alive at every tick from 100 to 500 with one marker at 300, the
  range (100, 300) is closed at tick 301 and a new one is opened there; the function
  returns (100, 300) followed by the range opened at 301.
\<close>

theorem boundary_close:
  "(round_end_ticks idx l = m # rest \<and> m < row_index row \<longrightarrow>
      loop_body idx row (rs, Some s, l) =
        (rs @ [(s, m)], (if is_alive row then Some (row_index row) else None), m)) \<and>
   iterrows [300] (map (alive_at 7) [100..301]) init_state = ([(100, 300)], Some 301, 300) \<and>
   get_player_alive_ranges (demo (map (alive_at 7) [100..500]) [300]) 7 =
     Inr [(100, 300), (301, 300)]"
proof -
  have a: "round_end_ticks idx l = m # rest \<and> m < row_index row \<longrightarrow>
      loop_body idx row (rs, Some s, l) =
        (rs @ [(s, m)], (if is_alive row then Some (row_index row) else None), m)"
    by (simp add: loop_body_def round_check_cases alive_check_cases)
  have b: "iterrows [300] (map (alive_at 7) [100..301]) init_state =
      ([(100, 300)], Some 301, 300)"
    by code_simp
  have c: "get_player_alive_ranges (demo (map (alive_at 7) [100..500]) [300]) 7 =
     Inr [(100, 300), (301, 300)]"
    by code_simp
  show ?thesis by (rule conjI [OF a conjI [OF b c]])
qed

theorem boundary_close_witness:
  "round_end_ticks [300] 0 = [300] \<and> 300 < row_index (alive_at 7 301) \<and>
   loop_body [300] (alive_at 7 301) ([], Some 100, 0) = ([(100, 300)], Some 301, 300)"
proof -
  have h: "round_end_ticks [300] 0 = 300 # [] \<and> 300 < row_index (alive_at 7 301)"
    by (simp add: round_end_ticks_def alive_at_def)
  from boundary_close [of "[300]" 0 300 "[]" "alive_at 7 301" "[]" 100, THEN conjunct1] h
  have "loop_body [300] (alive_at 7 301) ([], Some 100, 0) = ([(100, 300)], Some 301, 300)"
    by (simp add: alive_at_def)
  with h show ?thesis by simp
qed

text \<open>
  The statement after the loop, when a range is still open, markers exist and none lies
  after the last boundary: for rows in strictly ascending order of a non-negative index
  and markers in ascending order, the last range ends at the last marker, which is not
  after its start.
\<close>

lemma last_range_not_after_start:
  assumes "sorted_wrt (<) (map row_index (player_data parser sid))"
    and "\<forall>row\<in>set (player_data parser sid). 0 \<le> row_index row"
    and "sorted (round_end_index parser)"
    and "after_loop parser sid = (rs, Some s, l)"
    and "round_end_index parser \<noteq> []"
    and "round_end_ticks (round_end_index parser) l = []"
  shows "collected_ranges parser sid = Inr (rs @ [(s, last (round_end_index parser))]) \<and>
         last (round_end_index parser) \<le> s"
proof -
  have "range_inv (round_end_index parser)
      (if player_data parser sid = [] then - 1 else row_index (last (player_data parser sid)))
      (rs, Some s, l)"
    using after_loop_inv [OF assms(1-3)] unfolding assms(4) .
  then have "l \<le> s" by simp
  moreover have "last (round_end_index parser) \<le> l"
    using round_end_ticks_Nil [OF assms(6)] assms(5) by simp
  ultimately have "last (round_end_index parser) \<le> s" by simp
  moreover have "collected_ranges parser sid = Inr (rs @ [(s, last (round_end_index parser))])"
    using assms(4,5) by (simp add: collected_ranges_cases)
  ultimately show ?thesis by simp
qed

text \<open>
  C1 at an input. With one marker at 300 and the player alive at ticks 400 and 500, the
  range opened at 400 is still open after the loop and no marker lies after the boundary
  300. The last range ends at the marker 300, before its start, and not at the last
  observed tick 500.
\<close>

theorem final_range_before_boundary:
  "after_loop (demo [alive_at 7 400, alive_at 7 500] [300]) 7 = ([], Some 400, 300) \<and>
   round_end_ticks (round_end_index (demo [alive_at 7 400, alive_at 7 500] [300])) 300 = [] \<and>
   row_index (last (player_data (demo [alive_at 7 400, alive_at 7 500] [300]) 7)) = 500 \<and>
   collected_ranges (demo [alive_at 7 400, alive_at 7 500] [300]) 7 = Inr [(400, 300)]"
  by (simp add: eval_ranges)

text \<open>
  C2 at two inputs. A player alive from tick 299 to 302 with one marker at 300 gets the
  range (301, 300). A player whose first row is at tick 1000, after the markers 300 and
  600, gets the range (1000, 600). In both the start lies after the end.
\<close>

theorem range_start_after_end:
  "get_player_alive_ranges (demo (map (alive_at 7) [299..302]) [300]) 7 =
     Inr [(299, 300), (301, 300)] \<and>
   get_player_alive_ranges
     (demo [alive_at 7 1000, alive_at 7 1001, alive_at 7 1002] [300, 600, 1500]) 7 =
     Inr [(1000, 600), (1001, 1500)]"
proof -
  have a: "get_player_alive_ranges (demo (map (alive_at 7) [299..302]) [300]) 7 =
     Inr [(299, 300), (301, 300)]"
    by code_simp
  have b: "get_player_alive_ranges
     (demo [alive_at 7 1000, alive_at 7 1001, alive_at 7 1002] [300, 600, 1500]) 7 =
     Inr [(1000, 600), (1001, 1500)]"
    by (simp add: eval_ranges)
  show ?thesis by (rule conjI [OF a b])
qed

end
